theory Spec2Isabelle
  imports Main
begin

section \<open>Python strings\<close>

text \<open>
  A Python \<open>str\<close> is a sequence of Unicode code points, so a string is a list of
  natural numbers and a literal of the source is written \<open>py ''...''\<close>.
\<close>

type_synonym codepoint = nat
type_synonym pystr = "codepoint list"

definition py :: "string \<Rightarrow> pystr" where
  "py s = map of_char s"

text \<open>
  \<open>str.isspace\<close> on one code point: the white space that \<open>str.strip()\<close> removes
  (TAB..CR, FS..US, SPACE, NEL, NBSP, OGHAM SPACE, EN QUAD..HAIR SPACE, LINE and PARAGRAPH
  SEPARATOR, NARROW NBSP, MEDIUM MATHEMATICAL SPACE, IDEOGRAPHIC SPACE).
\<close>

definition isspace :: "codepoint \<Rightarrow> bool" where
  "isspace c \<longleftrightarrow>
     (9 \<le> c \<and> c \<le> 13) \<or> (28 \<le> c \<and> c \<le> 32) \<or> c = 133 \<or> c = 160 \<or> c = 5760 \<or>
     (8192 \<le> c \<and> c \<le> 8202) \<or> c = 8232 \<or> c = 8233 \<or> c = 8239 \<or> c = 8287 \<or> c = 12288"

text \<open>The line boundaries of \<open>str.splitlines()\<close>: LF, VT, FF, CR, FS, GS, RS, NEL, LS, PS.\<close>

definition is_linebreak :: "codepoint \<Rightarrow> bool" where
  "is_linebreak c \<longleftrightarrow>
     (10 \<le> c \<and> c \<le> 13) \<or> (28 \<le> c \<and> c \<le> 30) \<or> c = 133 \<or> c = 8232 \<or> c = 8233"

definition lstrip :: "pystr \<Rightarrow> pystr" where
  "lstrip s = dropWhile isspace s"

definition rstrip :: "pystr \<Rightarrow> pystr" where
  "rstrip s = rev (dropWhile isspace (rev s))"

text \<open>\<open>s.strip()\<close>: white space removed at both ends.\<close>

definition strip :: "pystr \<Rightarrow> pystr" where
  "strip s = rstrip (lstrip s)"

text \<open>\<open>s.rstrip(chars)\<close>: trailing code points that occur in \<open>chars\<close> removed.\<close>

definition rstrip_chars :: "pystr \<Rightarrow> pystr \<Rightarrow> pystr" where
  "rstrip_chars s chars = rev (dropWhile (\<lambda>c. c \<in> set chars) (rev s))"

definition startswith :: "pystr \<Rightarrow> pystr \<Rightarrow> bool" where
  "startswith s p \<longleftrightarrow> take (length p) s = p"

definition endswith :: "pystr \<Rightarrow> pystr \<Rightarrow> bool" where
  "endswith s p \<longleftrightarrow> length p \<le> length s \<and> drop (length s - length p) s = p"

text \<open>
  \<open>str.upper()\<close> maps each code point to its full uppercase form, which can be several
  code points. \<open>upper_char\<close> is that mapping on ASCII and on every other code point whose
  uppercase form contains an ASCII letter (sharp s, dotless i, long s, the Latin ligatures
  and the letters that decompose into an ASCII capital and a combining mark). Every
  remaining code point is left as it is: Python maps it to code points outside ASCII
  too, so a comparison of the result with an ASCII keyword is the same.
\<close>

definition upper_char :: "codepoint \<Rightarrow> pystr" where
  "upper_char c =
     (if 97 \<le> c \<and> c \<le> 122 then [c - 32]
      else if c = 223 then [83, 83]
      else if c = 305 then [73]
      else if c = 329 then [700, 78]
      else if c = 383 then [83]
      else if c = 496 then [74, 780]
      else if c = 7830 then [72, 817]
      else if c = 7831 then [84, 776]
      else if c = 7832 then [87, 778]
      else if c = 7833 then [89, 778]
      else if c = 7834 then [65, 702]
      else if c = 64256 then [70, 70]
      else if c = 64257 then [70, 73]
      else if c = 64258 then [70, 76]
      else if c = 64259 then [70, 70, 73]
      else if c = 64260 then [70, 70, 76]
      else if c = 64261 then [83, 84]
      else if c = 64262 then [83, 84]
      else [c])"

definition upper :: "pystr \<Rightarrow> pystr" where
  "upper s = concat (map upper_char s)"

text \<open>
  \<open>s.splitlines()\<close>: the lines of \<open>s\<close> without their line boundaries; CR LF is one
  boundary, and a boundary at the very end opens no further line. The first argument is
  the line read so far.
\<close>

fun splitlines_from :: "pystr \<Rightarrow> pystr \<Rightarrow> pystr list" where
  "splitlines_from cur [] = (if cur = [] then [] else [cur])"
| "splitlines_from cur [c] = (if is_linebreak c then [cur] else [cur @ [c]])"
| "splitlines_from cur (c # d # rest) =
     (if c = 13 \<and> d = 10 then cur # splitlines_from [] rest
      else if is_linebreak c then cur # splitlines_from [] (d # rest)
      else splitlines_from (cur @ [c]) (d # rest))"

definition splitlines :: "pystr \<Rightarrow> pystr list" where
  "splitlines s = splitlines_from [] s"

text \<open>\<open>sep.join(xs)\<close>.\<close>

fun join :: "pystr \<Rightarrow> pystr list \<Rightarrow> pystr" where
  "join sep [] = []"
| "join sep [x] = x"
| "join sep (x # y # ys) = x @ sep @ join sep (y # ys)"

section \<open>The SQL extractor\<close>

text \<open>
  The condition of the first \<open>if\<close> in the loop of \<open>extract_sql_only\<close>:
  \<open>line.strip().upper().startswith("SELECT") or line.strip().upper().startswith("WITH")\<close>.
\<close>

definition trigger :: "pystr \<Rightarrow> bool" where
  "trigger line \<longleftrightarrow>
     startswith (upper (strip line)) (py ''SELECT'') \<or> startswith (upper (strip line)) (py ''WITH'')"

text \<open>
  The \<open>for\<close> loop of \<open>extract_sql_only\<close> over the lines still to read, with the flag
  \<open>capture\<close> and the list \<open>sql_lines\<close> as they stand; \<open>break\<close> returns the list at once.
\<close>

fun extract_loop :: "bool \<Rightarrow> pystr list \<Rightarrow> pystr list \<Rightarrow> pystr list" where
  "extract_loop capture sql_lines [] = sql_lines"
| "extract_loop capture sql_lines (line # rest) =
     (let capture' = (if trigger line then True else capture) in
      if capture' then
        (if endswith (strip line) (py '';'')
         then sql_lines @ [rstrip_chars (strip line) (py '';'')]
         else extract_loop capture' (sql_lines @ [strip line]) rest)
      else extract_loop capture' sql_lines rest)"

definition extract_sql_only :: "pystr \<Rightarrow> pystr" where
  "extract_sql_only text = join (py '' '') (extract_loop False [] (splitlines text))"

section \<open>The prompt builder\<close>

text \<open>
  The call site renders the column names of the uploaded table as one string,
  \<open>columns = ", ".join(df.columns)\<close>, and passes it to \<open>generate_sql_query\<close>.
\<close>

definition columns_of :: "pystr list \<Rightarrow> pystr" where
  "columns_of df_columns = join (py '', '') df_columns"

text \<open>
  The f-string of \<open>generate_sql_query\<close> in three pieces: the text before \<open>{columns}\<close>,
  the text between \<open>{columns}\<close> and \<open>{question}\<close>, and the text after \<open>{question}\<close>.
\<close>

definition prompt_before_columns :: pystr where
  "prompt_before_columns = py
      (''\<newline>'' @
       ''You are an expert SQL assistant. Convert user questions into accurate, executable SQL queries using the given table schema.\<newline>'' @
       ''\<newline>'' @
       ''### Table schema:\<newline>'' @
       ''Table: user_data\<newline>'' @
       ''Columns:\<newline>'')"

definition prompt_before_question :: pystr where
  "prompt_before_question = py
      (''\<newline>'' @
       ''\<newline>'' @
       ''### Examples:\<newline>'' @
       ''-- Example 1:\<newline>'' @
       ''Question: What is the average salary of employees older than 30?\<newline>'' @
       ''SQL: SELECT AVG(salary) FROM user_data WHERE age > 30;\<newline>'' @
       ''\<newline>'' @
       ''-- Example 2:\<newline>'' @
       ''Question: List all distinct departments sorted by name.\<newline>'' @
       ''SQL: SELECT DISTINCT department FROM user_data ORDER BY department;\<newline>'' @
       ''\<newline>'' @
       ''-- Example 3:\<newline>'' @
       ''Question: How many employees are in the IT department and earn more than 70000?\<newline>'' @
       ''SQL: SELECT COUNT(*) FROM user_data WHERE department = 'IT' AND salary > 70000;\<newline>'' @
       ''\<newline>'' @
       ''-- Example 4:\<newline>'' @
       ''Question: Which employees joined in the last 2 years?\<newline>'' @
       ''SQL: SELECT * FROM user_data WHERE join_date >= DATE('now', '-2 years');\<newline>'' @
       ''\<newline>'' @
       ''-- Example 5:\<newline>'' @
       ''Question: Show the top 5 highest paid employees.\<newline>'' @
       ''SQL: SELECT * FROM user_data ORDER BY salary DESC LIMIT 5;\<newline>'' @
       ''\<newline>'' @
       ''-- Now your turn:\<newline>'' @
       ''\<newline>'' @
       ''Question: '')"

definition prompt_after_question :: pystr where
  "prompt_after_question = py
      (''\<newline>'' @
       ''SQL:\<newline>'')"

text \<open>The local variable \<open>prompt\<close>: the f-string, then \<open>.strip()\<close>.\<close>

definition prompt :: "pystr \<Rightarrow> pystr \<Rightarrow> pystr" where
  "prompt columns question =
     strip (prompt_before_columns @ columns @ prompt_before_question @ question @
            prompt_after_question)"

text \<open>
  The entries of a rendered column list, as \<open>rendered.split(", ")\<close> gives them, and the
  test \<open>", " in name\<close>. They state what a reader of the prompt finds in the list.
\<close>

fun split_list :: "pystr \<Rightarrow> pystr list" where
  "split_list [] = [[]]"
| "split_list [c] = [[c]]"
| "split_list (c # d # s) =
     (if c = 44 \<and> d = 32 then [] # split_list s
      else (case split_list (d # s) of [] \<Rightarrow> [[c]] | e # es \<Rightarrow> (c # e) # es))"

fun has_sep :: "pystr \<Rightarrow> bool" where
  "has_sep [] = False"
| "has_sep [c] = False"
| "has_sep (c # d # s) = ((c = 44 \<and> d = 32) \<or> has_sep (d # s))"

section \<open>The completion client\<close>

text \<open>
  An exception that a call raised: whether it is an instance of \<open>Exception\<close> (a
  \<open>KeyboardInterrupt\<close> is not) and the text \<open>str(e)\<close>.
\<close>

datatype exn = Exn (is_Exception: bool) (description: pystr)

text \<open>
  A decoded JSON value; an object is the list of the items of the \<open>dict\<close> that
  \<open>response.json()\<close> returns, so each key occurs once.
\<close>

datatype json =
    JNull
  | JBool bool
  | JNumber pystr
  | JString pystr
  | JArray "json list"
  | JObject "(pystr \<times> json) list"

text \<open>
  The request that \<open>requests.post\<close> sends and the response it returns. Of a response the
  code reads the status (in \<open>raise_for_status\<close>, with the text of the error raised there)
  and the decoded body: \<open>response.json()\<close> raises on a body that is not JSON.
\<close>

record request =
  url :: pystr
  json_model :: pystr
  json_prompt :: pystr
  json_stream :: bool

record response =
  status_code :: nat
  status_error :: pystr
  decoded :: "exn + json"

text \<open>
  What lies outside the program: the requests sent so far, the completion service (its
  answer may depend on them), and the texts of the interpreter's \<open>TypeError\<close> for
  \<open>value["response"]\<close> and \<open>AttributeError\<close> for \<open>value.strip()\<close>.
\<close>

record world =
  sent :: "request list"
  service :: "request list \<Rightarrow> request \<Rightarrow> exn + response"
  not_subscriptable :: "json \<Rightarrow> pystr"
  no_strip :: "json \<Rightarrow> pystr"

definition OLLAMA_API_URL :: pystr where
  "OLLAMA_API_URL = py ''http://localhost:11434/api/generate''"

definition MODEL_NAME :: pystr where
  "MODEL_NAME = py ''llama3.2:latest''"

definition post :: "world \<Rightarrow> request \<Rightarrow> (exn + response) \<times> world" where
  "post w r = (service w (sent w) r, w\<lparr>sent := sent w @ [r]\<rparr>)"

text \<open>
  \<open>Response.raise_for_status()\<close> of the requests library raises \<open>HTTPError\<close> for a status
  from 400 to 599 and returns otherwise.
\<close>

definition raise_for_status :: "response \<Rightarrow> exn + unit" where
  "raise_for_status r =
     (if 400 \<le> status_code r \<and> status_code r < 600 then Inl (Exn True (status_error r))
      else Inr ())"

text \<open>\<open>body["response"]\<close>: a \<open>KeyError\<close> shows the key in quotes.\<close>

fun response_field :: "world \<Rightarrow> json \<Rightarrow> exn + json" where
  "response_field w (JObject members) =
     (case map_of members (py ''response'') of
        None \<Rightarrow> Inl (Exn True ([39] @ py ''response'' @ [39]))
      | Some v \<Rightarrow> Inr v)"
| "response_field w body = Inl (Exn True (not_subscriptable w body))"

text \<open>\<open>result.strip()\<close>.\<close>

fun strip_result :: "world \<Rightarrow> json \<Rightarrow> exn + pystr" where
  "strip_result w (JString s) = Inr (strip s)"
| "strip_result w v = Inl (Exn True (no_strip w v))"

text \<open>The statements of the \<open>try\<close> block after \<open>requests.post\<close> has returned or raised.\<close>

definition try_block :: "world \<Rightarrow> exn + response \<Rightarrow> exn + pystr" where
  "try_block w posted =
     (case posted of
        Inl e \<Rightarrow> Inl e
      | Inr response \<Rightarrow>
          (case raise_for_status response of
             Inl e \<Rightarrow> Inl e
           | Inr _ \<Rightarrow>
               (case decoded response of
                  Inl e \<Rightarrow> Inl e
                | Inr body \<Rightarrow>
                    (case response_field w body of
                       Inl e \<Rightarrow> Inl e
                     | Inr result \<Rightarrow> strip_result w result))))"

text \<open>The marker of \<open>f"\<dots> Error: {e}"\<close>: CROSS MARK (U+274C), then \<open> Error: \<close>.\<close>

definition error_marker :: pystr where
  "error_marker = [10060] @ py '' Error: ''"

text \<open>
  \<open>generate_sql_query\<close>: the value returned, or the exception that leaves the function
  (\<open>except Exception\<close> catches instances of \<open>Exception\<close> only), and the world afterwards.
\<close>

definition generate_sql_query :: "world \<Rightarrow> pystr \<Rightarrow> pystr \<Rightarrow> (exn + pystr) \<times> world" where
  "generate_sql_query w columns question =
     (let (posted, w') =
        post w \<lparr>url = OLLAMA_API_URL, json_model = MODEL_NAME,
                json_prompt = prompt columns question, json_stream = False\<rparr>
      in (case try_block w posted of
            Inr result \<Rightarrow> Inr result
          | Inl e \<Rightarrow> if is_Exception e then Inr (error_marker @ description e) else Inl e,
          w'))"

section \<open>Properties of the extractor\<close>

lemmas py_eval = py_def isspace_def is_linebreak_def lstrip_def rstrip_def strip_def
  rstrip_chars_def startswith_def endswith_def upper_char_def upper_def splitlines_def
  trigger_def extract_sql_only_def Let_def

lemma endswith_semicolon: "endswith s (py '';'') \<longleftrightarrow> s \<noteq> [] \<and> last s = 59"
proof (cases s rule: rev_cases)
  case Nil
  then show ?thesis by (simp add: endswith_def py_def)
next
  case (snoc ys y)
  then show ?thesis by (auto simp: endswith_def py_def)
qed

lemma rstrip_chars_semicolon:
  "rstrip_chars s (py '';'') = [] \<or> last (rstrip_chars s (py '';'')) \<noteq> 59"
proof -
  let ?d = "dropWhile (\<lambda>c. c \<in> set (py '';'')) (rev s)"
  show ?thesis
  proof (cases ?d)
    case Nil
    then show ?thesis by (simp add: rstrip_chars_def)
  next
    case (Cons a as)
    then have "hd ?d \<notin> set (py '';'')"
      using hd_dropWhile [of "\<lambda>c. c \<in> set (py '';'')" "rev s"] by simp
    with Cons have "a \<noteq> 59" by (simp add: py_def)
    with Cons show ?thesis by (simp add: rstrip_chars_def)
  qed
qed

lemma extract_loop_skip:
  "\<forall>l\<in>set skipped. \<not> trigger l \<Longrightarrow>
   extract_loop False sql_lines (skipped @ rest) = extract_loop False sql_lines rest"
  by (induction skipped) simp_all

lemma extract_loop_capture:
  "\<forall>l\<in>set captured. \<not> endswith (strip l) (py '';'') \<Longrightarrow>
   extract_loop True sql_lines (captured @ rest) =
   extract_loop True (sql_lines @ map strip captured) rest"
  by (induction captured arbitrary: sql_lines) simp_all

lemma extract_loop_trigger:
  "trigger line \<Longrightarrow>
   extract_loop capture sql_lines (line # rest) = extract_loop True sql_lines (line # rest)"
  by simp

lemma extract_loop_stop:
  "endswith (strip line) (py '';'') \<Longrightarrow>
   extract_loop True sql_lines (line # rest) = sql_lines @ [rstrip_chars (strip line) (py '';'')]"
  by simp

lemma extract_loop_acc:
  "extract_loop capture sql_lines ls = sql_lines @ extract_loop capture [] ls"
proof (induction ls arbitrary: capture sql_lines)
  case Nil
  then show ?case by simp
next
  case (Cons l ls)
  have a: "extract_loop True (sql_lines @ [strip l]) ls = sql_lines @ [strip l] @ extract_loop True [] ls"
    using Cons [of True "sql_lines @ [strip l]"] by simp
  have b: "extract_loop True [strip l] ls = [strip l] @ extract_loop True [] ls"
    using Cons [of True "[strip l]"] by simp
  show ?case using a b Cons [of False sql_lines] by (simp add: Let_def)
qed

lemma join_not_semicolon:
  "xs \<noteq> [] \<Longrightarrow> last xs = [] \<or> last (last xs) \<noteq> 59 \<Longrightarrow>
   join (py '' '') xs = [] \<or> last (join (py '' '') xs) \<noteq> 59"
proof (induction "py '' ''" xs rule: join.induct)
  case 1
  then show ?case by simp
next
  case (2 x)
  then show ?case by simp
next
  case (3 x y ys)
  then have ih: "join (py '' '') (y # ys) = [] \<or> last (join (py '' '') (y # ys)) \<noteq> 59"
    by simp
  show ?case
  proof (cases "join (py '' '') (y # ys) = []")
    case True
    then show ?thesis by (simp add: py_def)
  next
    case False
    with ih show ?thesis by (simp add: py_def)
  qed
qed

lemma extract_loop_last:
  "sql_lines = [] \<or> last sql_lines = [] \<or> last (last sql_lines) \<noteq> 59 \<Longrightarrow>
   extract_loop capture sql_lines ls = [] \<or> last (extract_loop capture sql_lines ls) = [] \<or>
   last (last (extract_loop capture sql_lines ls)) \<noteq> 59"
proof (induction ls arbitrary: capture sql_lines)
  case Nil
  then show ?case by simp
next
  case (Cons l ls)
  show ?case
  proof (cases "trigger l \<or> capture")
    case False
    then show ?thesis using Cons.IH [of sql_lines False] Cons.prems by simp
  next
    case True
    show ?thesis
    proof (cases "endswith (strip l) (py '';'')")
      case True
      with \<open>trigger l \<or> capture\<close> show ?thesis
        using rstrip_chars_semicolon [of "strip l"] by auto
    next
      case False
      then have "[strip l] = [] \<or> last (sql_lines @ [strip l]) = [] \<or>
          last (last (sql_lines @ [strip l])) \<noteq> 59"
        by (simp add: endswith_semicolon)
      then have "sql_lines @ [strip l] = [] \<or> last (sql_lines @ [strip l]) = [] \<or>
          last (last (sql_lines @ [strip l])) \<noteq> 59" by simp
      from Cons.IH [OF this, of True] False \<open>trigger l \<or> capture\<close> show ?thesis by auto
    qed
  qed
qed

text \<open>
  Claim C9. Whatever the text, the string that \<open>extract_sql_only\<close> returns does not end
  with a semicolon; a terminating line that ends with several semicolons loses all of
  them: \<open>SELECT a;;\<close> gives \<open>SELECT a\<close>.
\<close>

theorem extract_never_ends_with_semicolon:
  "\<not> endswith (extract_sql_only text) (py '';'') \<and>
   extract_sql_only (py ''SELECT a;;'') = py ''SELECT a''"
proof
  let ?r = "extract_loop False [] (splitlines text)"
  have inv: "?r = [] \<or> last ?r = [] \<or> last (last ?r) \<noteq> 59"
    by (rule extract_loop_last) simp
  show "\<not> endswith (extract_sql_only text) (py '';'')"
  proof (cases "?r = []")
    case True
    then show ?thesis by (simp add: extract_sql_only_def endswith_semicolon)
  next
    case False
    with inv have "last ?r = [] \<or> last (last ?r) \<noteq> 59" by simp
    from join_not_semicolon [OF False this] show ?thesis
      by (auto simp: extract_sql_only_def endswith_semicolon)
  qed
  show "extract_sql_only (py ''SELECT a;;'') = py ''SELECT a''"
    by (simp add: py_eval)
qed

text \<open>
  Claim C7. On the three lines \<open>Sure!\<close>, \<open>SELECT * FROM user_data WHERE age > 30;\<close>,
  \<open>Hope that helps.\<close> the extractor returns the statement alone: the prose before it
  and after it is dropped and so is the semicolon.
\<close>

theorem extract_round_trip:
  "extract_sql_only (py ''Sure!\<newline>SELECT * FROM user_data WHERE age > 30;\<newline>Hope that helps.'')
   = py ''SELECT * FROM user_data WHERE age > 30''"
  by (simp add: py_eval)

text \<open>
  The loop stops at a line, not at a statement. Of two statements on one line both are
  returned, and a first statement followed on its line by a comment does not stop the
  scan, so the statement of the next line is returned with it.
\<close>

theorem extract_stops_at_first_statement_counterexample:
  "extract_sql_only (py ''SELECT a FROM t; SELECT b FROM t;'')
     = py ''SELECT a FROM t; SELECT b FROM t'' \<and>
   extract_sql_only (py ''SELECT a FROM t; -- first\<newline>SELECT b FROM t;'')
     = py ''SELECT a FROM t; -- first SELECT b FROM t''"
  by (simp add: py_eval)

text \<open>
  Claim C1, amended. The lines of the text are: lines that do not trigger, then the
  captured lines (the first of them triggers, none ends with a semicolon once trimmed),
  then a line whose trimmed form ends with a semicolon, then anything. The extractor
  returns the captured lines and that line without its trailing semicolons, and nothing
  of the lines that follow; so of two statements, each on a line of its own that ends with
  its semicolon, only the first is returned.
\<close>

theorem extract_stops_at_first_statement:
  assumes "splitlines text = skipped @ captured @ line # rest"
    and "\<forall>l\<in>set skipped. \<not> trigger l"
    and "trigger (hd (captured @ [line]))"
    and "\<forall>l\<in>set captured. \<not> endswith (strip l) (py '';'')"
    and "endswith (strip line) (py '';'')"
  shows "extract_sql_only text =
    join (py '' '') (map strip captured @ [rstrip_chars (strip line) (py '';'')])"
proof -
  have "extract_loop False [] (splitlines text) = extract_loop False [] (captured @ line # rest)"
    using assms(1,2) extract_loop_skip [of skipped "[]" "captured @ line # rest"] by simp
  also have "\<dots> = extract_loop True [] (captured @ line # rest)"
    using assms(3) extract_loop_trigger [of "hd (captured @ [line])" False "[]"]
    by (cases captured) simp_all
  also have "\<dots> = extract_loop True (map strip captured) (line # rest)"
    using assms(4) extract_loop_capture [of captured "[]" "line # rest"] by simp
  also have "\<dots> = map strip captured @ [rstrip_chars (strip line) (py '';'')]"
    using assms(5) by (rule extract_loop_stop)
  finally show ?thesis by (simp add: extract_sql_only_def)
qed

theorem extract_stops_at_first_statement_witness:
  "extract_sql_only (py ''SELECT a FROM t;\<newline>SELECT b FROM t;'') = py ''SELECT a FROM t''"
proof -
  have "extract_sql_only (py ''SELECT a FROM t;\<newline>SELECT b FROM t;'') =
    join (py '' '') (map strip [] @ [rstrip_chars (strip (py ''SELECT a FROM t;'')) (py '';'')])"
    by (rule extract_stops_at_first_statement [of _ "[]" "[]" _ "[py ''SELECT b FROM t;'']"])
      (simp_all add: py_eval)
  then show ?thesis by (simp add: py_eval)
qed

text \<open>
  Claim C2. The lines of the text are: lines that do not trigger, then a line that
  triggers, then the lines to the end of the text, and neither the triggering line nor a
  later one ends with a semicolon once trimmed. The extractor returns all of them from
  the triggering line on, each trimmed, joined by one space, in their order.
\<close>

theorem extract_without_terminator:
  assumes "splitlines text = skipped @ first # following"
    and "\<forall>l\<in>set skipped. \<not> trigger l"
    and "trigger first"
    and "\<forall>l\<in>set (first # following). \<not> endswith (strip l) (py '';'')"
  shows "extract_sql_only text = join (py '' '') (map strip (first # following))"
proof -
  have "extract_loop False [] (splitlines text) = extract_loop False [] (first # following)"
    using assms(1,2) extract_loop_skip [of skipped "[]" "first # following"] by simp
  also have "\<dots> = extract_loop True [] (first # following)"
    using assms(3) by (rule extract_loop_trigger)
  also have "\<dots> = extract_loop True (map strip (first # following)) []"
    using assms(4) extract_loop_capture [of "first # following" "[]" "[]"] by simp
  finally show ?thesis by (simp add: extract_sql_only_def)
qed

theorem extract_without_terminator_witness:
  "extract_sql_only (py ''SELECT name\<newline>FROM user_data'') = py ''SELECT name FROM user_data''"
proof -
  have "extract_sql_only (py ''SELECT name\<newline>FROM user_data'') =
    join (py '' '') (map strip [py ''SELECT name'', py ''FROM user_data''])"
    by (rule extract_without_terminator [of _ "[]"]) (simp_all add: py_eval)
  then show ?thesis by (simp add: py_eval)
qed

text \<open>
  Claim C3. When no line of the text triggers (trimmed and in upper case it begins neither
  with \<open>SELECT\<close> nor with \<open>WITH\<close>), the extractor returns the empty string.
\<close>

theorem extract_without_trigger:
  assumes "\<forall>l\<in>set (splitlines text). \<not> trigger l"
  shows "extract_sql_only text = []"
proof -
  have "extract_loop False [] (splitlines text @ []) = extract_loop False [] []"
    using assms by (rule extract_loop_skip)
  then show ?thesis by (simp add: extract_sql_only_def)
qed

theorem extract_without_trigger_witness:
  "extract_sql_only (py ''I cannot help with that.'') = py []"
proof -
  have "extract_sql_only (py ''I cannot help with that.'') = []"
    by (rule extract_without_trigger) (simp add: py_eval)
  then show ?thesis by (simp add: py_def)
qed

text \<open>
  Claim C10. The trigger is a test on the first letters of the line, not on a keyword:
  the prose lines \<open>Without a doubt, here is the query:\<close> and
  \<open>Selected rows are shown below\<close> start the capture, and the returned string begins
  with them.
\<close>

theorem trigger_is_prefix_match:
  "extract_sql_only (py ''Without a doubt, here is the query:\<newline>SELECT 1;'')
     = py ''Without a doubt, here is the query: SELECT 1'' \<and>
   extract_sql_only (py ''Selected rows are shown below'') = py ''Selected rows are shown below''"
  by (simp add: py_eval)

subsection \<open>The spelling of the keyword\<close>

lemma drop_trailing_keep:
  assumes "a \<noteq> []" and "\<not> P (last a)"
  shows "rev (dropWhile P (rev (a @ b))) =
    a @ (if \<forall>x\<in>set b. P x then [] else rev (dropWhile P (rev b)))"
proof -
  have "dropWhile P (rev a) = rev a"
    using assms by (cases a rule: rev_cases) simp_all
  then show ?thesis by (simp add: dropWhile_append)
qed

lemma strip_keyword:
  assumes "\<forall>c\<in>set w. isspace c" and "k \<noteq> []"
    and "\<not> isspace (hd k)" and "\<not> isspace (last k)"
  shows "strip (w @ k @ r) = k @ (if \<forall>c\<in>set r. isspace c then [] else rstrip r)"
proof -
  have "dropWhile isspace (w @ k @ r) = dropWhile isspace (k @ r)"
    using assms(1) by (simp add: dropWhile_append)
  also have "\<dots> = k @ r"
    using assms(2,3) by (cases k) simp_all
  finally have "lstrip (w @ k @ r) = k @ r" by (simp add: lstrip_def)
  then show ?thesis
    using drop_trailing_keep [of k isspace r] assms(2,4) by (simp add: strip_def rstrip_def)
qed

lemma upper_append: "upper (a @ b) = upper a @ upper b"
  by (simp add: upper_def)

lemma startswith_append: "startswith (p @ s) p"
  by (simp add: startswith_def)

lemma captured_line:
  assumes "strip line = k @ t" and "trigger line" and "k \<noteq> []" and "last k \<noteq> 59"
  shows "extract_loop capture sql_lines (line # rest) =
    sql_lines @ [k @ (if t = [] \<or> last t \<noteq> 59 then t
                      else if \<forall>c\<in>set t. c = 59 then [] else rstrip_chars t (py '';''))] @
    (if t = [] \<or> last t \<noteq> 59 then extract_loop True [] rest else [])"
proof (cases "t = [] \<or> last t \<noteq> 59")
  case True
  then have "\<not> endswith (strip line) (py '';'')"
    using assms(1,3,4) by (cases "t = []") (auto simp: endswith_semicolon)
  then show ?thesis
    using True assms(1,2) extract_loop_acc [of True "sql_lines @ [k @ t]" rest] by simp
next
  case False
  then have e: "endswith (strip line) (py '';'')"
    using assms(1) by (simp add: endswith_semicolon)
  have "\<not> (\<lambda>c. c \<in> set (py '';'')) (last k)"
    using assms(4) by (simp add: py_def)
  with drop_trailing_keep [of k "\<lambda>c. c \<in> set (py '';'')" t] assms(3)
  have "rstrip_chars (k @ t) (py '';'') =
      k @ (if \<forall>c\<in>set t. c = 59 then [] else rstrip_chars t (py '';''))"
    by (simp add: rstrip_chars_def py_def)
  then show ?thesis using False e assms(1,2) by simp
qed

text \<open>
  Claim C6. A line that begins, after white space, with \<open>select\<close> triggers as the same
  line with \<open>SELECT\<close> does, and from either line the loop goes on in the same way: the
  two results differ in the spelling of that keyword only.
\<close>

theorem trigger_case_insensitive:
  assumes "\<forall>c\<in>set w. isspace c"
  shows "trigger (w @ py ''select'' @ r) \<and> trigger (w @ py ''SELECT'' @ r) \<and>
    (\<exists>t tail.
       extract_loop capture sql_lines ((w @ py ''select'' @ r) # rest) =
         sql_lines @ [py ''select'' @ t] @ tail \<and>
       extract_loop capture sql_lines ((w @ py ''SELECT'' @ r) # rest) =
         sql_lines @ [py ''SELECT'' @ t] @ tail)"
proof -
  let ?t = "if \<forall>c\<in>set r. isspace c then [] else rstrip r"
  have lo: "strip (w @ py ''select'' @ r) = py ''select'' @ ?t"
    by (rule strip_keyword [OF assms]) (simp_all add: py_def isspace_def)
  have up: "strip (w @ py ''SELECT'' @ r) = py ''SELECT'' @ ?t"
    by (rule strip_keyword [OF assms]) (simp_all add: py_def isspace_def)
  have u: "upper (py ''select'') = py ''SELECT''" "upper (py ''SELECT'') = py ''SELECT''"
    by (simp_all add: py_def upper_def upper_char_def)
  have tlo: "trigger (w @ py ''select'' @ r)"
    unfolding trigger_def lo upper_append u by (simp add: startswith_append)
  have tup: "trigger (w @ py ''SELECT'' @ r)"
    unfolding trigger_def up upper_append u by (simp add: startswith_append)
  have klo: "py ''select'' \<noteq> []" "last (py ''select'') \<noteq> 59" by (simp_all add: py_def)
  have kup: "py ''SELECT'' \<noteq> []" "last (py ''SELECT'') \<noteq> 59" by (simp_all add: py_def)
  from captured_line [OF lo tlo klo, of capture sql_lines rest]
    captured_line [OF up tup kup, of capture sql_lines rest] tlo tup
  show ?thesis by blast
qed

theorem trigger_case_insensitive_witness:
  "trigger (py ''  select 1;'') \<and> trigger (py ''  SELECT 1;'') \<and>
   extract_sql_only (py ''ok\<newline>  select 1;\<newline>bye'') = py ''select 1'' \<and>
   extract_sql_only (py ''ok\<newline>  SELECT 1;\<newline>bye'') = py ''SELECT 1''"
proof -
  have w: "\<forall>c\<in>set (py ''  ''). isspace c" by (simp add: py_def isspace_def)
  from trigger_case_insensitive [OF w, of "py '' 1;''" False "[]" "[py ''bye'']"]
  have "trigger (py ''  '' @ py ''select'' @ py '' 1;'')"
    and "trigger (py ''  '' @ py ''SELECT'' @ py '' 1;'')" by blast+
  then have "trigger (py ''  select 1;'')" and "trigger (py ''  SELECT 1;'')"
    by (simp_all add: py_def)
  then show ?thesis by (simp add: py_eval)
qed

section \<open>Properties of the prompt builder\<close>

lemma prompt_before_columns_Cons:
  "\<exists>rest. prompt_before_columns = 10 # 89 # rest"
  by (simp add: prompt_before_columns_def py_def)

lemma prompt_eq:
  "prompt columns question =
     tl prompt_before_columns @ columns @ prompt_before_question @ question @ py ''\<newline>SQL:''"
proof -
  obtain rest where h: "prompt_before_columns = 10 # 89 # rest"
    using prompt_before_columns_Cons by blast
  let ?body = "rest @ columns @ prompt_before_question @ question"
  have l: "lstrip (prompt_before_columns @ columns @ prompt_before_question @ question @
      prompt_after_question) = (89 # ?body) @ py ''\<newline>SQL:\<newline>''"
    by (simp add: h lstrip_def isspace_def prompt_after_question_def)
  have r: "rstrip ((89 # ?body) @ py ''\<newline>SQL:\<newline>'') = (89 # ?body) @ py ''\<newline>SQL:''"
    by (simp add: rstrip_def isspace_def py_def)
  show ?thesis
    unfolding prompt_def strip_def l r by (simp add: h)
qed

lemma endswith_append: "endswith (a @ b) b"
  by (simp add: endswith_def)

lemma prompt_ends_with_cue:
  "endswith (prompt columns question) (py ''Question: '' @ question @ py ''\<newline>SQL:'')"
proof -
  have "\<exists>front. prompt_before_question = front @ py ''Question: ''"
    by (simp add: prompt_before_question_def py_def)
  then obtain front where "prompt_before_question = front @ py ''Question: ''" by blast
  then have "prompt columns question =
      (tl prompt_before_columns @ columns @ front) @
      (py ''Question: '' @ question @ py ''\<newline>SQL:'')"
    by (simp add: prompt_eq)
  then show ?thesis by (simp only: endswith_append)
qed

lemma split_list_not_Nil: "split_list s \<noteq> []"
  by (induction s rule: split_list.induct) (auto split: list.splits)

lemma split_list_name:
  "\<not> has_sep name \<Longrightarrow> split_list (name @ 44 # 32 # s) = name # split_list s"
proof (induction name rule: has_sep.induct)
  case 1
  then show ?case by simp
next
  case (2 c)
  then show ?case by simp
next
  case (3 c d s')
  then show ?case by auto
qed

lemma split_list_single: "\<not> has_sep name \<Longrightarrow> split_list name = [name]"
  by (induction name rule: has_sep.induct) auto

lemma split_list_columns:
  "df_columns \<noteq> [] \<Longrightarrow> \<forall>c\<in>set df_columns. \<not> has_sep c \<Longrightarrow>
   split_list (join (py '', '') df_columns) = df_columns"
proof (induction "py '', ''" df_columns rule: join.induct)
  case 1
  then show ?case by simp
next
  case (2 x)
  then show ?case by (simp add: split_list_single)
next
  case (3 x y ys)
  then have "split_list (join (py '', '') (y # ys)) = y # ys" by simp
  moreover have "py '', '' = [44, 32]" by (simp add: py_def)
  ultimately show ?case using "3.prems" by (simp add: split_list_name)
qed

lemma count_list_distinct: "distinct xs \<Longrightarrow> x \<in> set xs \<Longrightarrow> count_list xs x = 1"
  by (induction xs) auto

text \<open>
  That every column name is in the rendered list exactly once fails for a name that
  occurs twice in the sequence, and for a name that contains the separator: the list of
  \<open>a, b\<close> and \<open>c\<close> reads as the three entries \<open>a\<close>, \<open>b\<close>, \<open>c\<close>.
\<close>

theorem prompt_lists_columns_counterexample:
  "count_list (split_list (columns_of [py ''a'', py ''a''])) (py ''a'') = 2 \<and>
   count_list (split_list (columns_of [py ''a, b'', py ''c''])) (py ''a, b'') = 0"
  by (simp add: columns_of_def py_def)

text \<open>
  Claim C4, amended. For a non-empty sequence of pairwise distinct column names, none of
  which contains the separator \<open>, \<close>, the rendered list splits at the separators into
  the column names in their order, so every name is an entry of it exactly once. The
  prompt is the fixed text around that list and the question, and it ends with the
  question line followed by the cue \<open>SQL:\<close> on the next line, for every question.
\<close>

theorem prompt_lists_columns:
  assumes "df_columns \<noteq> []" and "distinct df_columns"
    and "\<forall>c\<in>set df_columns. \<not> has_sep c"
  shows "split_list (columns_of df_columns) = df_columns \<and>
    (\<forall>c\<in>set df_columns. count_list (split_list (columns_of df_columns)) c = 1) \<and>
    prompt (columns_of df_columns) question =
      tl prompt_before_columns @ columns_of df_columns @ prompt_before_question @
      question @ py ''\<newline>SQL:'' \<and>
    endswith (prompt (columns_of df_columns) question)
      (py ''Question: '' @ question @ py ''\<newline>SQL:'')"
proof -
  have s: "split_list (columns_of df_columns) = df_columns"
    unfolding columns_of_def using assms(1,3) by (rule split_list_columns)
  have "\<forall>c\<in>set df_columns. count_list df_columns c = 1"
    using assms(2) by (simp add: count_list_distinct)
  with s have n: "\<forall>c\<in>set df_columns. count_list (split_list (columns_of df_columns)) c = 1"
    by simp
  show ?thesis
    using s n prompt_eq [of "columns_of df_columns" question]
      prompt_ends_with_cue [of "columns_of df_columns" question]
    by blast
qed

theorem prompt_lists_columns_witness:
  "split_list (columns_of [py ''name'', py ''age'']) = [py ''name'', py ''age''] \<and>
   count_list (split_list (columns_of [py ''name'', py ''age''])) (py ''age'') = 1 \<and>
   endswith (prompt (columns_of [py ''name'', py ''age'']) (py []))
     (py ''Question: '' @ py [] @ py ''\<newline>SQL:'')"
proof -
  have a: "[py ''name'', py ''age''] \<noteq> []" by simp
  have b: "distinct [py ''name'', py ''age'']" by (simp add: py_def)
  have c: "\<forall>c\<in>set [py ''name'', py ''age'']. \<not> has_sep c" by (simp add: py_def)
  from prompt_lists_columns [OF a b c, of "py []"]
  have x: "split_list (columns_of [py ''name'', py ''age'']) = [py ''name'', py ''age'']"
    and y: "\<forall>c\<in>set [py ''name'', py ''age''].
      count_list (split_list (columns_of [py ''name'', py ''age''])) c = 1"
    and z: "endswith (prompt (columns_of [py ''name'', py ''age'']) (py []))
      (py ''Question: '' @ py [] @ py ''\<newline>SQL:'')"
    by blast+
  from y have "count_list (split_list (columns_of [py ''name'', py ''age''])) (py ''age'') = 1"
    by simp
  with x z show ?thesis by blast
qed

section \<open>Properties of the completion client\<close>

lemma generate_sql_query_sent:
  "sent (snd (generate_sql_query w columns question)) =
   sent w @ [\<lparr>url = OLLAMA_API_URL, json_model = MODEL_NAME,
              json_prompt = prompt columns question, json_stream = False\<rparr>]"
  by (simp add: generate_sql_query_def post_def)

text \<open>
  Claim C8. Two calls with the same column list and question, one after the other, send
  two identical requests, whatever the world was and whatever the service answered in
  between; the prompt of a request is \<open>prompt columns question\<close> and so the same in any
  two worlds.
\<close>

theorem prompt_is_pure:
  "sent (snd (generate_sql_query (snd (generate_sql_query w columns question)) columns question))
   = sent w @ replicate 2 \<lparr>url = OLLAMA_API_URL, json_model = MODEL_NAME,
                             json_prompt = prompt columns question, json_stream = False\<rparr> \<and>
   map json_prompt (sent (snd (generate_sql_query w columns question)))
   = map json_prompt (sent w) @ [prompt columns question] \<and>
   json_prompt (last (sent (snd (generate_sql_query w columns question))))
   = json_prompt (last (sent (snd (generate_sql_query w' columns question))))"
  by (simp add: generate_sql_query_sent numeral_2_eq_2)

lemma generate_sql_query_result:
  "fst (generate_sql_query w columns question) =
     (case try_block w (service w (sent w)
         \<lparr>url = OLLAMA_API_URL, json_model = MODEL_NAME,
          json_prompt = prompt columns question, json_stream = False\<rparr>) of
        Inr result \<Rightarrow> Inr result
      | Inl e \<Rightarrow> if is_Exception e then Inr (error_marker @ description e) else Inl e)"
  by (simp add: generate_sql_query_def post_def)

lemma response_field_Exception: "response_field w body = Inl e \<Longrightarrow> is_Exception e"
  by (cases body) (auto split: option.splits)

lemma strip_result_Exception: "strip_result w v = Inl e \<Longrightarrow> is_Exception e"
  by (cases v) auto

text \<open>
  Claim C5, amended. When the request fails with an instance of \<open>Exception\<close>, the
  function returns the error marker followed by the text of the exception and raises
  nothing: when \<open>requests.post\<close> raises (a network error), when the status is from 400
  to 599, when the body does not decode, when the decoded body has no \<open>response\<close> field
  or cannot be subscripted, and when the field has no \<open>strip\<close>. A status outside 400
  to 599 is not a failure by itself: when the body decodes and its \<open>response\<close> field is
  a string, that string is returned, trimmed.
\<close>

theorem failure_is_reported:
  assumes "posted = service w (sent w)
      \<lparr>url = OLLAMA_API_URL, json_model = MODEL_NAME,
       json_prompt = prompt columns question, json_stream = False\<rparr>"
  shows
    "(posted = Inl e \<and> is_Exception e \<longrightarrow>
        fst (generate_sql_query w columns question) = Inr (error_marker @ description e)) \<and>
     (posted = Inr r \<and> 400 \<le> status_code r \<and> status_code r < 600 \<longrightarrow>
        fst (generate_sql_query w columns question) = Inr (error_marker @ status_error r)) \<and>
     (posted = Inr r \<and> \<not> (400 \<le> status_code r \<and> status_code r < 600) \<and>
      decoded r = Inl e \<and> is_Exception e \<longrightarrow>
        fst (generate_sql_query w columns question) = Inr (error_marker @ description e)) \<and>
     (posted = Inr r \<and> \<not> (400 \<le> status_code r \<and> status_code r < 600) \<and>
      decoded r = Inr body \<and> response_field w body = Inl e \<longrightarrow>
        fst (generate_sql_query w columns question) = Inr (error_marker @ description e)) \<and>
     (posted = Inr r \<and> \<not> (400 \<le> status_code r \<and> status_code r < 600) \<and>
      decoded r = Inr body \<and> response_field w body = Inr v \<and> strip_result w v = Inl e \<longrightarrow>
        fst (generate_sql_query w columns question) = Inr (error_marker @ description e)) \<and>
     (try_block w posted = Inl e \<and> is_Exception e \<longrightarrow>
        fst (generate_sql_query w columns question) = Inr (error_marker @ description e)) \<and>
     (posted = Inr r \<and> \<not> (400 \<le> status_code r \<and> status_code r < 600) \<and>
      decoded r = Inr body \<and> response_field w body = Inr (JString completion) \<longrightarrow>
        fst (generate_sql_query w columns question) = Inr (strip completion))"
proof -
  have g: "fst (generate_sql_query w columns question) =
     (case try_block w posted of
        Inr result \<Rightarrow> Inr result
      | Inl e \<Rightarrow> if is_Exception e then Inr (error_marker @ description e) else Inl e)"
    unfolding assms by (rule generate_sql_query_result)
  have 1: "posted = Inl e \<and> is_Exception e \<longrightarrow>
        fst (generate_sql_query w columns question) = Inr (error_marker @ description e)"
    by (simp add: g try_block_def)
  have 2: "posted = Inr r \<and> 400 \<le> status_code r \<and> status_code r < 600 \<longrightarrow>
        fst (generate_sql_query w columns question) = Inr (error_marker @ status_error r)"
    by (simp add: g try_block_def raise_for_status_def)
  have 3: "posted = Inr r \<and> \<not> (400 \<le> status_code r \<and> status_code r < 600) \<and>
      decoded r = Inl e \<and> is_Exception e \<longrightarrow>
        fst (generate_sql_query w columns question) = Inr (error_marker @ description e)"
    by (auto simp: g try_block_def raise_for_status_def)
  have 4: "posted = Inr r \<and> \<not> (400 \<le> status_code r \<and> status_code r < 600) \<and>
      decoded r = Inr body \<and> response_field w body = Inl e \<longrightarrow>
        fst (generate_sql_query w columns question) = Inr (error_marker @ description e)"
    using response_field_Exception [of w body e]
    by (auto simp: g try_block_def raise_for_status_def)
  have 5: "posted = Inr r \<and> \<not> (400 \<le> status_code r \<and> status_code r < 600) \<and>
      decoded r = Inr body \<and> response_field w body = Inr v \<and> strip_result w v = Inl e \<longrightarrow>
        fst (generate_sql_query w columns question) = Inr (error_marker @ description e)"
    using strip_result_Exception [of w v e]
    by (auto simp: g try_block_def raise_for_status_def)
  have 6: "try_block w posted = Inl e \<and> is_Exception e \<longrightarrow>
        fst (generate_sql_query w columns question) = Inr (error_marker @ description e)"
    by (simp add: g)
  have 7: "posted = Inr r \<and> \<not> (400 \<le> status_code r \<and> status_code r < 600) \<and>
      decoded r = Inr body \<and> response_field w body = Inr (JString completion) \<longrightarrow>
        fst (generate_sql_query w columns question) = Inr (strip completion)"
    by (auto simp: g try_block_def raise_for_status_def)
  from 1 2 3 4 5 6 7 show ?thesis by blast
qed

text \<open>
  A status that is not 2xx does not always give the error text: on status 300 with a
  well-formed body \<open>raise_for_status\<close> returns, and the completion is returned as it is.
\<close>

theorem failure_is_reported_counterexample:
  "fst (generate_sql_query
     \<lparr>sent = [],
      service = (\<lambda>before r. Inr \<lparr>status_code = 300, status_error = py ''300 Multiple Choices'',
        decoded = Inr (JObject [(py ''response'', JString (py ''SELECT 1''))])\<rparr>),
      not_subscriptable = (\<lambda>v. []), no_strip = (\<lambda>v. [])\<rparr>
     (py ''name'') (py ''who?'')) = Inr (py ''SELECT 1'') \<and>
   \<not> startswith (py ''SELECT 1'') error_marker"
  by (simp add: generate_sql_query_def post_def try_block_def raise_for_status_def
      py_def strip_def lstrip_def rstrip_def isspace_def startswith_def error_marker_def)

theorem failure_is_reported_witness:
  "fst (generate_sql_query
     \<lparr>sent = [], service = (\<lambda>before r. Inl (Exn True (py ''Connection refused''))),
      not_subscriptable = (\<lambda>v. []), no_strip = (\<lambda>v. [])\<rparr>
     (py ''name'') (py ''who?'')) = Inr (error_marker @ py ''Connection refused'') \<and>
   fst (generate_sql_query
     \<lparr>sent = [],
      service = (\<lambda>before r. Inr \<lparr>status_code = 404, status_error = py ''404 Client Error'',
        decoded = Inr (JObject [])\<rparr>),
      not_subscriptable = (\<lambda>v. []), no_strip = (\<lambda>v. [])\<rparr>
     (py ''name'') (py ''who?'')) = Inr (error_marker @ py ''404 Client Error'') \<and>
   fst (generate_sql_query
     \<lparr>sent = [],
      service = (\<lambda>before r. Inr \<lparr>status_code = 200, status_error = [],
        decoded = Inr (JObject [(py ''error'', JString (py ''model not found''))])\<rparr>),
      not_subscriptable = (\<lambda>v. []), no_strip = (\<lambda>v. [])\<rparr>
     (py ''name'') (py ''who?'')) = Inr (error_marker @ [39] @ py ''response'' @ [39])"
proof -
  let ?q = "\<lparr>url = OLLAMA_API_URL, json_model = MODEL_NAME,
    json_prompt = prompt (py ''name'') (py ''who?''), json_stream = False\<rparr>"
  let ?w1 = "\<lparr>sent = [], service = (\<lambda>before r. Inl (Exn True (py ''Connection refused''))),
      not_subscriptable = (\<lambda>v. []), no_strip = (\<lambda>v. [])\<rparr>"
  let ?r2 = "\<lparr>status_code = 404, status_error = py ''404 Client Error'',
        decoded = Inr (JObject [])\<rparr>"
  let ?w2 = "\<lparr>sent = [], service = (\<lambda>before r. Inr ?r2),
      not_subscriptable = (\<lambda>v. []), no_strip = (\<lambda>v. [])\<rparr>"
  let ?b3 = "JObject [(py ''error'', JString (py ''model not found''))]"
  let ?r3 = "\<lparr>status_code = 200, status_error = [], decoded = Inr ?b3\<rparr>"
  let ?w3 = "\<lparr>sent = [], service = (\<lambda>before r. Inr ?r3),
      not_subscriptable = (\<lambda>v. []), no_strip = (\<lambda>v. [])\<rparr>"
  have p1: "Inl (Exn True (py ''Connection refused'')) = service ?w1 (sent ?w1) ?q" by simp
  have p2: "Inr ?r2 = service ?w2 (sent ?w2) ?q" by simp
  have p3: "Inr ?r3 = service ?w3 (sent ?w3) ?q" by simp
  have f3: "response_field ?w3 ?b3 = Inl (Exn True ([39] @ py ''response'' @ [39]))"
    by (simp add: py_def)
  from failure_is_reported [OF p1, of "Exn True (py ''Connection refused'')"]
  have a: "fst (generate_sql_query ?w1 (py ''name'') (py ''who?'')) =
      Inr (error_marker @ py ''Connection refused'')" by simp
  from failure_is_reported [OF p2, of _ ?r2]
  have b: "fst (generate_sql_query ?w2 (py ''name'') (py ''who?'')) =
      Inr (error_marker @ py ''404 Client Error'')" by simp
  from failure_is_reported [OF p3, of "Exn True ([39] @ py ''response'' @ [39])" ?r3 ?b3] f3
  have c: "fst (generate_sql_query ?w3 (py ''name'') (py ''who?'')) =
      Inr (error_marker @ [39] @ py ''response'' @ [39])" by simp
  from a b c show ?thesis by blast
qed

end
